theory Spec2Isabelle
  imports Main
begin

section \<open>Python strings\<close>

text \<open>
  A Python \<open>str\<close> is a sequence of code points. The lines of the combat log are modelled
  as \<^typ>\<open>string\<close>, read as the code points below 256 (one \<^typ>\<open>char\<close> is one code
  point, not a byte of an encoding). On this range the character classes and the case
  mapping below are the ones of CPython: \<open>str.isspace\<close> and the regular expression
  class \<open>\s\<close> hold of the same twelve code points, \<open>\d\<close> holds of the ASCII digits
  only, and \<open>str.lower\<close> maps A-Z and the Latin-1 capitals to their small letters.
\<close>

definition isspace :: "char \<Rightarrow> bool" where
  "isspace c \<longleftrightarrow> (of_char c :: nat) \<in> {9, 10, 11, 12, 13, 28, 29, 30, 31, 32, 133, 160}"

definition isdigit :: "char \<Rightarrow> bool" where
  "isdigit c \<longleftrightarrow> 48 \<le> (of_char c :: nat) \<and> (of_char c :: nat) \<le> 57"

definition isalpha_ascii :: "char \<Rightarrow> bool" where
  "isalpha_ascii c \<longleftrightarrow>
     (65 \<le> (of_char c :: nat) \<and> (of_char c :: nat) \<le> 90) \<or>
     (97 \<le> (of_char c :: nat) \<and> (of_char c :: nat) \<le> 122)"

definition lower_char :: "char \<Rightarrow> char" where
  "lower_char c =
     (let n = (of_char c :: nat)
      in if (65 \<le> n \<and> n \<le> 90) \<or> (192 \<le> n \<and> n \<le> 222 \<and> n \<noteq> 215)
         then char_of (n + 32) else c)"

definition upper_char_ascii :: "char \<Rightarrow> char" where
  "upper_char_ascii c =
     (let n = (of_char c :: nat)
      in if 97 \<le> n \<and> n \<le> 122 then char_of (n - 32) else c)"

definition lower :: "string \<Rightarrow> string" where
  "lower s = map lower_char s"

text \<open>\<open>s.strip()\<close>: drop the whitespace at both ends.\<close>

definition strip :: "string \<Rightarrow> string" where
  "strip s = rev (dropWhile isspace (rev (dropWhile isspace s)))"

text \<open>\<open>s.rstrip(cs)\<close>: drop the trailing characters that occur in \<open>cs\<close>.\<close>

definition rstrip_chars :: "string \<Rightarrow> string \<Rightarrow> string" where
  "rstrip_chars cs s = rev (dropWhile (\<lambda>c. c \<in> set cs) (rev s))"

text \<open>\<open>sub in s\<close> for strings: \<open>sub\<close> occurs in \<open>s\<close> as a contiguous block.\<close>

fun startswith :: "string \<Rightarrow> string \<Rightarrow> bool" where
  "startswith s [] = True"
| "startswith [] (c # cs) = False"
| "startswith (x # xs) (c # cs) = (x = c \<and> startswith xs cs)"

fun contains :: "string \<Rightarrow> string \<Rightarrow> bool" where
  "contains [] sub = (sub = [])"
| "contains (x # xs) sub = (startswith (x # xs) sub \<or> contains xs sub)"

text \<open>
  \<open>s.title()\<close>: a letter that follows a letter is made small, any other letter is made
  capital. It is applied to damage-type names only, which the pattern confines to the
  ASCII letters and whitespace; other characters are left as they are.
\<close>

fun title_from :: "bool \<Rightarrow> string \<Rightarrow> string" where
  "title_from prev [] = []"
| "title_from prev (c # cs) =
     (if isalpha_ascii c
      then (if prev then lower_char c else upper_char_ascii c) # title_from True cs
      else c # title_from False cs)"

definition title :: "string \<Rightarrow> string" where
  "title s = title_from False s"

section \<open>Regular expressions\<close>

text \<open>
  The patterns of \<open>_compile_patterns\<close> are built from the constructs below. All of them
  are compiled with \<open>re.IGNORECASE\<close>, so a literal letter matches either case. Every
  repetition in the patterns is over a single character class, greedy (\<open>\s*\<close>,
  \<open>\d+\<close>, \<open>[^)]+\<close>) or lazy (\<open>.+?\<close>).
\<close>

datatype re =
    Lit char
  | Rep bool nat "char \<Rightarrow> bool"
  | Seq re re
  | Alt re re
  | Opt re
  | Grp string re
  | Bol
  | Eol
  | Eps

text \<open>
  A state of the matcher: the position in the line, the text still to be read, and the
  groups bound so far (the innermost and latest first).
\<close>

type_synonym mstate = "nat \<times> string \<times> (string \<times> string) list"

text \<open>
  \<open>ms r st\<close> lists the states in which a match of \<open>r\<close> from \<open>st\<close> can end, in the
  order in which a backtracking matcher tries them: the longest repetition first for a
  greedy one, the shortest first for a lazy one, the alternatives from left to right. The
  first state of the list for the whole pattern is the match that \<open>re\<close> reports.
  \<open>Eol\<close> is \<open>$\<close>: the end of the text, or just before a final newline.
\<close>

fun ms :: "re \<Rightarrow> mstate \<Rightarrow> mstate list" where
  "ms (Lit c) (p, s, g) =
     (case s of [] \<Rightarrow> []
      | x # xs \<Rightarrow> if lower_char x = lower_char c then [(Suc p, xs, g)] else [])"
| "ms (Rep greedy n f) (p, s, g) =
     (let ks = [n ..< Suc (length (takeWhile f s))]
      in map (\<lambda>k. (p + k, drop k s, g)) (if greedy then rev ks else ks))"
| "ms (Seq a b) st = concat (map (ms b) (ms a st))"
| "ms (Alt a b) st = ms a st @ ms b st"
| "ms (Opt a) st = ms a st @ [st]"
| "ms (Grp n a) (p, s, g) =
     map (\<lambda>(p', s', g'). (p', s', (n, take (p' - p) s) # g')) (ms a (p, s, g))"
| "ms Bol (p, s, g) = (if p = 0 then [(p, s, g)] else [])"
| "ms Eol (p, s, g) = (if s = [] \<or> s = [CHR 0x0A] then [(p, s, g)] else [])"
| "ms Eps st = [st]"

text \<open>\<open>m.group(name)\<close>: \<open>None\<close> when the group took no part in the match.\<close>

definition group_of :: "mstate \<Rightarrow> string \<Rightarrow> string option" where
  "group_of m n = map_of (snd (snd m)) n"

text \<open>\<open>pattern.match\<close> at a position of the line, and \<open>pattern.search\<close>: the first
  position, from the left, at which the pattern matches.\<close>

definition match_at :: "re \<Rightarrow> nat \<Rightarrow> string \<Rightarrow> mstate option" where
  "match_at r p s = (case ms r (p, s, []) of [] \<Rightarrow> None | m # _ \<Rightarrow> Some m)"

fun search_from :: "re \<Rightarrow> nat \<Rightarrow> string \<Rightarrow> mstate option" where
  "search_from r p [] = match_at r p []"
| "search_from r p (x # xs) =
     (case match_at r p (x # xs) of
        Some m \<Rightarrow> Some m
      | None \<Rightarrow> search_from r (Suc p) xs)"

definition search :: "re \<Rightarrow> string \<Rightarrow> mstate option" where
  "search r s = search_from r 0 s"

text \<open>
  \<open>pattern.finditer\<close>: the matches from left to right, each search starting where the
  match before it ended. The one pattern it is used with cannot match the empty string.
\<close>

function finditer_from :: "re \<Rightarrow> nat \<Rightarrow> string \<Rightarrow> mstate list" where
  "finditer_from r p s =
     (case search_from r p s of
        None \<Rightarrow> []
      | Some (p', s', g) \<Rightarrow>
          if length s' < length s then (p', s', g) # finditer_from r p' s'
          else [(p', s', g)])"
  by pat_completeness auto
termination
  by (relation "measure (\<lambda>(r, p, s). length s)") auto

declare finditer_from.simps [simp del]

definition finditer :: "re \<Rightarrow> string \<Rightarrow> mstate list" where
  "finditer r s = finditer_from r 0 s"

subsection \<open>The patterns\<close>

definition lits :: "string \<Rightarrow> re" where
  "lits s = foldr (\<lambda>c r. Seq (Lit c) r) s Eps"

definition cat :: "re list \<Rightarrow> re" where
  "cat rs = foldr Seq rs Eps"

definition alts :: "re list \<Rightarrow> re" where
  "alts rs = foldr Alt (butlast rs) (last rs)"

definition dot :: "char \<Rightarrow> bool" where
  "dot c \<longleftrightarrow> c \<noteq> CHR 0x0A"

definition but :: "char \<Rightarrow> char \<Rightarrow> bool" where
  "but x c \<longleftrightarrow> c \<noteq> x"

text \<open>\<open>\s*\<close>, \<open>\s+\<close>, \<open>\d+\<close> and a named \<open>.+?\<close>.\<close>

definition ws0 :: re where "ws0 = Rep True 0 isspace"
definition ws1 :: re where "ws1 = Rep True 1 isspace"
definition digits :: re where "digits = Rep True 1 isdigit"
definition lazy_name :: "string \<Rightarrow> re" where "lazy_name n = Grp n (Rep False 1 dot)"

text \<open>\<open>(?:Attack Of Opportunity\s*:\s*)?\<close>\<close>

definition aoo :: re where
  "aoo = Opt (cat [lits ''Attack Of Opportunity'', ws0, Lit CHR '':'', ws0])"

text \<open>\<open>(?P<attacker>.+?)\s+attacks\s+(?P<target>.+?)\s*:\s*\<close>\<close>

definition who_attacks :: re where
  "who_attacks = cat [lazy_name ''attacker'', ws1, lits ''attacks'', ws1,
     lazy_name ''target'', ws0, Lit CHR '':'', ws0]"

text \<open>\<open>\*(?P<outcome>hit|miss|critical hit|parried|resisted)\*\<close>\<close>

definition outcome_tok :: re where
  "outcome_tok = cat [Lit CHR ''*'',
     Grp ''outcome'' (alts [lits ''hit'', lits ''miss'', lits ''critical hit'',
       lits ''parried'', lits ''resisted'']),
     Lit CHR ''*'']"

text \<open>\<open>\((?P<roll>\d+)\s*\+\s*(?P<bonus>-?\d+)\s*=\s*(?P<total>\d+)\)\<close>\<close>

definition roll_expr :: re where
  "roll_expr = cat [Lit CHR ''('', Grp ''roll'' digits, ws0, Lit CHR ''+'', ws0,
     Grp ''bonus'' (Seq (Opt (Lit CHR ''-'')) digits), ws0, Lit CHR ''='', ws0,
     Grp ''total'' digits, Lit CHR '')'']"

text \<open>\<open>\*target concealed:\s*(?P<conceal>\d+)%\*\<close>\<close>

definition concealed_tok :: re where
  "concealed_tok = cat [lits ''*target concealed:'', ws0, Grp ''conceal'' digits,
     lits ''%*'']"

definition pat_prefix :: re where
  "pat_prefix = cat [Bol, lits ''[CHAT WINDOW TEXT]'', ws0, Lit CHR ''['',
     Rep True 1 (but CHR '']''), Lit CHR '']'', ws0]"

definition pat_attack :: re where
  "pat_attack = cat [aoo, who_attacks, outcome_tok, ws0,
     Opt (cat [Lit CHR '':'', ws0, roll_expr])]"

definition pat_attack_conceal :: re where
  "pat_attack_conceal = cat [aoo, who_attacks, concealed_tok, ws0, Lit CHR '':'', ws0,
     roll_expr, ws0, Lit CHR '':'', ws0, outcome_tok]"

definition pat_attack_conceal_pending :: re where
  "pat_attack_conceal_pending = cat [aoo, who_attacks, concealed_tok, ws0, Lit CHR '':'',
     ws0, roll_expr, ws0, Eol]"

definition pat_conceal_miss :: re where
  "pat_conceal_miss = cat [who_attacks, concealed_tok, ws0, Eol]"

definition pat_save :: re where
  "pat_save = cat [Opt (cat [lits ''SAVE:'', ws0]),
     lazy_name ''target'', ws0, Lit CHR '':'', ws0,
     Grp ''save_type'' (alts [lits ''Fort'', lits ''Fortitude'', lits ''Reflex'',
       lits ''Will'']),
     ws1, lits ''Save'',
     Opt (cat [ws1, lits ''vs.'', ws0, Rep False 1 (but CHR '':'')]),
     ws0, Lit CHR '':'', ws0,
     Lit CHR ''*'', Grp ''outcome'' (alts [lits ''success'', lits ''failed'']),
     Lit CHR ''*'', ws0, Lit CHR '':'', ws0,
     Lit CHR ''('', Grp ''roll'' digits, ws0, Lit CHR ''+'', ws0,
     Grp ''bonus'' (Seq (Opt (Lit CHR ''-'')) digits), ws0,
     Opt (cat [Lit CHR ''='', ws0, digits, ws0]),
     lits ''vs.'', ws0, lits ''DC:'', ws0, Grp ''dc'' digits, Lit CHR '')'']"

definition pat_damage :: re where
  "pat_damage = cat [lazy_name ''attacker'', ws1, lits ''damages'', ws1,
     lazy_name ''target'', Lit CHR '':'', ws0, Grp ''amount'' digits,
     Opt (cat [ws0, Lit CHR ''('', Grp ''breakdown'' (Rep True 1 (but CHR '')'')),
       Lit CHR '')''])]"

text \<open>\<open>(\d+)\s+([A-Za-z]+(?:\s+[A-Za-z]+)?)\<close>, its two groups named by their numbers.\<close>

definition pat_damage_type :: re where
  "pat_damage_type = cat [Grp ''1'' digits, ws1,
     Grp ''2'' (Seq (Rep True 1 isalpha_ascii)
       (Opt (Seq ws1 (Rep True 1 isalpha_ascii))))]"

definition pat_potion :: re where
  "pat_potion = cat [lazy_name ''user'', ws1, lits ''uses'', ws1,
     Grp ''potion'' (Seq (lits ''Potion of Heal'') (Rep True 0 dot))]"

definition pat_undead_heal :: re where
  "pat_undead_heal = cat [lazy_name ''caster'', ws1, lits ''casts'', ws1,
     lits ''Harm Self (Undead)'']"

definition pat_kill :: re where
  "pat_kill = cat [lazy_name ''killer'', ws1, lits ''killed'', ws1,
     Grp ''target'' (Rep True 1 dot)]"

section \<open>Errors and conversions\<close>

text \<open>
  The exceptions that the text handling of \<open>parse_line\<close> could raise: \<open>int\<close> of a
  string that is no numeral (\<open>ValueError\<close>), \<open>int\<close> of \<open>None\<close> (\<open>TypeError\<close>) and a
  string method called on \<open>None\<close> (\<open>AttributeError\<close>), the last two when a group that
  took no part in the match is read.
\<close>

datatype error = ValueError | TypeError | AttributeError

definition bind_r :: "error + 'a \<Rightarrow> ('a \<Rightarrow> error + 'b) \<Rightarrow> error + 'b" where
  "bind_r x f = (case x of Inl e \<Rightarrow> Inl e | Inr v \<Rightarrow> f v)"

definition int_of_digits :: "string \<Rightarrow> int" where
  "int_of_digits ds = foldl (\<lambda>a c. 10 * a + (int (of_char c) - 48)) 0 ds"

text \<open>
  \<open>int(s)\<close>: whitespace around the numeral is dropped, a sign may lead it, and at least
  one digit must follow. (\<open>int\<close> also takes single underscores between digits; no
  pattern group can hold one, and here they raise.) Python integers are unbounded; the
  limit that an interpreter may set on the number of digits \<open>int\<close> converts is not modelled.
\<close>

definition py_int :: "string \<Rightarrow> error + int" where
  "py_int s =
     (let t = strip s;
          neg = (t \<noteq> [] \<and> hd t = CHR ''-'');
          ds = (if t \<noteq> [] \<and> (hd t = CHR ''-'' \<or> hd t = CHR ''+'') then tl t else t)
      in if ds \<noteq> [] \<and> list_all isdigit ds
         then Inr (if neg then - int_of_digits ds else int_of_digits ds)
         else Inl ValueError)"

text \<open>\<open>m.group(n).strip()\<close> and its like: a string method on the group.\<close>

definition str_group :: "mstate \<Rightarrow> string \<Rightarrow> error + string" where
  "str_group m n = (case group_of m n of None \<Rightarrow> Inl AttributeError | Some s \<Rightarrow> Inr s)"

text \<open>\<open>int(m.group(n))\<close>\<close>

definition int_group :: "mstate \<Rightarrow> string \<Rightarrow> error + int" where
  "int_group m n = (case group_of m n of None \<Rightarrow> Inl TypeError | Some s \<Rightarrow> py_int s)"

text \<open>\<open>int(x) if x else None\<close>, for \<open>x = m.group(n)\<close>\<close>

definition opt_int_group :: "mstate \<Rightarrow> string \<Rightarrow> error + int option" where
  "opt_int_group m n =
     (case group_of m n of
        None \<Rightarrow> Inr None
      | Some s \<Rightarrow> if s = [] then Inr None else bind_r (py_int s) (\<lambda>i. Inr (Some i)))"

text \<open>\<open>str(i)\<close> for an integer.\<close>

fun str_nat :: "nat \<Rightarrow> string" where
  "str_nat n = (if n < 10 then [char_of (48 + n)]
                else str_nat (n div 10) @ [char_of (48 + n mod 10)])"

definition str :: "int \<Rightarrow> string" where
  "str i = (if i < 0 then CHR ''-'' # str_nat (nat (- i)) else str_nat (nat i))"

section \<open>The estimators\<close>

record EnemySaves =
  es_name :: string
  fortitude :: "int option"
  reflex :: "int option"
  will :: "int option"

definition update_save :: "string \<Rightarrow> int \<Rightarrow> EnemySaves \<Rightarrow> EnemySaves" where
  "update_save save_type bonus es =
     (if save_type = ''fort'' then
        (if fortitude es = None \<or> bonus > the (fortitude es)
         then es\<lparr>fortitude := Some bonus\<rparr> else es)
      else if save_type = ''ref'' then
        (if reflex es = None \<or> bonus > the (reflex es)
         then es\<lparr>reflex := Some bonus\<rparr> else es)
      else if save_type = ''will'' then
        (if will es = None \<or> bonus > the (will es)
         then es\<lparr>will := Some bonus\<rparr> else es)
      else es)"

record EnemyAC =
  ac_name :: string
  min_hit :: "int option"
  max_miss :: "int option"

definition record_hit :: "int \<Rightarrow> EnemyAC \<Rightarrow> EnemyAC" where
  "record_hit tot ac =
     (if min_hit ac = None \<or> tot < the (min_hit ac)
      then ac\<lparr>min_hit := Some tot\<rparr> else ac)"

definition record_miss :: "int \<Rightarrow> bool \<Rightarrow> EnemyAC \<Rightarrow> EnemyAC" where
  "record_miss tot was_nat1 ac =
     (if \<not> was_nat1 then
        (if max_miss ac = None \<or> tot > the (max_miss ac)
         then ac\<lparr>max_miss := Some tot\<rparr> else ac)
      else ac)"

text \<open>
  The estimate is a string with the character U+2264 in one of its forms, which is beyond
  the code points of \<^typ>\<open>char\<close>: the result is given as the list of its code points.
\<close>

definition code_points :: "string \<Rightarrow> nat list" where
  "code_points s = map of_char s"

definition get_ac_estimate :: "EnemyAC \<Rightarrow> nat list" where
  "get_ac_estimate ac =
     (if min_hit ac \<noteq> None \<and> max_miss ac \<noteq> None then
        (if the (max_miss ac) + 1 = the (min_hit ac) then
           code_points (str (the (min_hit ac)))
         else if the (max_miss ac) < the (min_hit ac) then
           code_points (str (the (max_miss ac) + 1) @ ''-'' @ str (the (min_hit ac)))
         else
           code_points (''~'' @ str (the (min_hit ac))))
      else if min_hit ac \<noteq> None then
        0x2264 # code_points (str (the (min_hit ac)))
      else if max_miss ac \<noteq> None then
        code_points (''>'' @ str (the (max_miss ac)))
      else code_points ''?'')"

subsection \<open>The rolling attack bonus\<close>

text \<open>
  A \<open>datetime\<close> is a count of microseconds, and \<open>timedelta(seconds=w)\<close> is
  \<open>w * 1000000\<close> of them. Each call of \<open>datetime.now()\<close> is a reading of the clock: the
  methods below take the readings they make as arguments, in the order in which the source
  makes them (\<open>update\<close> reads the clock itself and then again inside \<open>_prune_old\<close>).
\<close>

type_synonym datetime = int

record AttackBonus =
  current :: int
  max_observed :: int
  last_updated :: datetime
  recent_attacks :: "(datetime \<times> int) list"
  window_seconds :: int

definition prune_old :: "datetime \<Rightarrow> AttackBonus \<Rightarrow> AttackBonus" where
  "prune_old now ab =
     (let cutoff = now - window_seconds ab * 1000000
      in ab\<lparr>recent_attacks := filter (\<lambda>(t, b). t > cutoff) (recent_attacks ab)\<rparr>)"

definition update :: "datetime \<Rightarrow> datetime \<Rightarrow> int \<Rightarrow> AttackBonus \<Rightarrow> AttackBonus" where
  "update now now_prune bonus ab =
     (let ab1 = ab\<lparr>current := bonus, recent_attacks := recent_attacks ab @ [(now, bonus)]\<rparr>;
          ab2 = prune_old now_prune ab1;
          ab3 = ab2\<lparr>max_observed :=
                  (if recent_attacks ab2 \<noteq> [] then Max (set (map snd (recent_attacks ab2)))
                   else bonus)\<rparr>
      in ab3\<lparr>last_updated := now\<rparr>)"

definition refresh :: "datetime \<Rightarrow> AttackBonus \<Rightarrow> AttackBonus" where
  "refresh now ab =
     (let ab1 = prune_old now ab
      in if recent_attacks ab1 \<noteq> []
         then ab1\<lparr>max_observed := Max (set (map snd (recent_attacks ab1)))\<rparr>
         else ab1)"

text \<open>\<open>AttackBonus()\<close>: the defaults of the dataclass; \<open>last_updated\<close> is a reading.\<close>

definition new_AttackBonus :: "datetime \<Rightarrow> AttackBonus" where
  "new_AttackBonus now =
     \<lparr>current = 0, max_observed = 0, last_updated = now, recent_attacks = [],
      window_seconds = 30\<rparr>"

section \<open>The tracker\<close>

text \<open>
  The attributes of \<open>NWNCombatTracker\<close>, in the order of \<open>__init__\<close>. The last field is
  not an attribute of the class: it counts the readings of the clock made so far, so that
  the \<open>n\<close>-th call of \<open>datetime.now()\<close> returns \<open>clk n\<close> for the clock \<open>clk\<close> that the
  operations take as an argument.
\<close>

type_synonym clock = "nat \<Rightarrow> datetime"

record NWNCombatTracker =
  player_name :: string
  target_filter :: string
  exact_match :: bool
  reset_interval :: int
  auto_track :: bool
  target_saves :: "EnemySaves option"
  target_ac :: "EnemyAC option"
  target_name :: string
  target_ab :: "int option"
  attack_bonus :: AttackBonus
  hits :: int
  misses :: int
  crits :: int
  conceals :: int
  target_conceal_pct :: "int option"
  damage_dealt :: int
  damage_dealt_crits :: "int list"
  damage_dealt_normal :: "int list"
  shield_damage_by_type :: "string \<rightharpoonup> int"
  shield_damage_total :: int
  weapon_buff_damage_by_type :: "string \<rightharpoonup> int"
  weapon_buff_damage_total :: int
  last_attack_was_player :: bool
  damage_taken :: "int list"
  damage_taken_by_type :: "string \<rightharpoonup> int list"
  player_pots :: int
  target_pots :: int
  last_player_hit_was_crit :: bool
  last_target_hit_was_crit :: bool
  encounter_start :: "datetime option"
  encounter_last :: "datetime option"
  target_dead :: bool
  kill_time :: "datetime option"
  clock_reads :: nat


definition strip_prefix :: "string \<Rightarrow> string" where
  \<comment> \<open>\<open>pat_prefix.sub('', line).strip()\<close>: the pattern is anchored at the start of the
     line, so it is replaced at most once, there.\<close>
  "strip_prefix line =
     strip (case match_at pat_prefix 0 line of None \<Rightarrow> line | Some (p, rest, g) \<Rightarrow> rest)"

definition is_player :: "NWNCombatTracker \<Rightarrow> string \<Rightarrow> bool" where
  "is_player t name \<longleftrightarrow>
     player_name t \<noteq> [] \<and> contains (lower name) (lower (player_name t))"

definition matches_target :: "NWNCombatTracker \<Rightarrow> string \<Rightarrow> bool" where
  "matches_target t name0 =
     (let name = lower (rstrip_chars ''.!,'' (strip name0))
      in if auto_track t then
           (if is_player t name then False
            else if target_name t \<noteq> [] then lower (target_name t) = name
            else True)
         else if target_filter t = [] then False
         else if exact_match t then target_filter t = name
         else contains name (target_filter t))"

definition set_target :: "string \<Rightarrow> NWNCombatTracker \<Rightarrow> NWNCombatTracker" where
  "set_target name t =
     (if target_name t = [] then
        (let n = rstrip_chars ''.!,'' (strip name)
         in t\<lparr>target_name := n,
              target_saves := Some \<lparr>es_name = n, fortitude = None, reflex = None, will = None\<rparr>,
              target_ac := Some \<lparr>ac_name = n, min_hit = None, max_miss = None\<rparr>\<rparr>)
      else t)"

definition update_encounter_time :: "clock \<Rightarrow> NWNCombatTracker \<Rightarrow> NWNCombatTracker" where
  "update_encounter_time clk t =
     (let now = clk (clock_reads t);
          t1 = t\<lparr>clock_reads := Suc (clock_reads t)\<rparr>;
          t2 = (if encounter_start t1 = None then t1\<lparr>encounter_start := Some now\<rparr> else t1)
      in t2\<lparr>encounter_last := Some now\<rparr>)"

text \<open>\<open>self.attack_bonus.update(bonus)\<close>, with its two readings of the clock.\<close>

definition update_attack_bonus :: "clock \<Rightarrow> int \<Rightarrow> NWNCombatTracker \<Rightarrow> NWNCombatTracker" where
  "update_attack_bonus clk bonus t =
     t\<lparr>attack_bonus :=
          update (clk (clock_reads t)) (clk (Suc (clock_reads t))) bonus (attack_bonus t),
       clock_reads := Suc (Suc (clock_reads t))\<rparr>"

subsection \<open>Attack lines\<close>

definition is_hit_of :: "string \<Rightarrow> bool" where
  "is_hit_of outcome \<longleftrightarrow> contains outcome ''hit'' \<and> \<not> contains outcome ''miss''"

definition is_crit_of :: "string \<Rightarrow> bool" where
  "is_crit_of outcome \<longleftrightarrow> contains outcome ''critical''"

definition is_miss_of :: "string \<Rightarrow> bool" where
  "is_miss_of outcome \<longleftrightarrow> outcome = ''miss'' \<or> outcome = ''parried'' \<or> outcome = ''resisted''"

definition was_nat1_of :: "int option \<Rightarrow> bool" where
  \<comment> \<open>\<open>roll == 1 if roll else False\<close>\<close>
  "was_nat1_of roll = (case roll of None \<Rightarrow> False | Some r \<Rightarrow> if r = 0 then False else r = 1)"

text \<open>The body of \<open>if not is_conceal_pending:\<close> in the branch of the player's attacks.\<close>

definition resolve_attack ::
  "string \<Rightarrow> int option \<Rightarrow> int option \<Rightarrow> NWNCombatTracker \<Rightarrow> NWNCombatTracker" where
  "resolve_attack outcome roll tot t =
     (if is_hit_of outcome then
        (let t1 = t\<lparr>hits := hits t + 1, last_attack_was_player := True\<rparr>;
             t2 = (if is_crit_of outcome
                   then t1\<lparr>crits := crits t1 + 1, last_player_hit_was_crit := True\<rparr>
                   else t1\<lparr>last_player_hit_was_crit := False\<rparr>)
         in if tot \<noteq> None \<and> target_ac t2 \<noteq> None
            then t2\<lparr>target_ac := Some (record_hit (the tot) (the (target_ac t2)))\<rparr>
            else t2)
      else if is_miss_of outcome then
        (let t1 = t\<lparr>misses := misses t + 1\<rparr>
         in if tot \<noteq> None \<and> target_ac t1 \<noteq> None
            then t1\<lparr>target_ac :=
                      Some (record_miss (the tot) (was_nat1_of roll) (the (target_ac t1)))\<rparr>
            else t1)
      else t)"

text \<open>The player attacks the opponent.\<close>

definition player_attack ::
  "clock \<Rightarrow> string \<Rightarrow> int option \<Rightarrow> bool \<Rightarrow> string \<Rightarrow> int option \<Rightarrow> int option \<Rightarrow> int option \<Rightarrow>
   NWNCombatTracker \<Rightarrow> NWNCombatTracker" where
  "player_attack clk target conceal pending outcome roll bonus tot t =
     (let t1 = set_target target t;
          t2 = update_encounter_time clk t1;
          t3 = (if conceal \<noteq> None then t2\<lparr>target_conceal_pct := conceal\<rparr> else t2);
          t4 = (if bonus \<noteq> None then update_attack_bonus clk (the bonus) t3 else t3)
      in if \<not> pending then resolve_attack outcome roll tot t4 else t4)"

text \<open>The opponent attacks the player.\<close>

definition target_attack ::
  "clock \<Rightarrow> string \<Rightarrow> string \<Rightarrow> int option \<Rightarrow> NWNCombatTracker \<Rightarrow> NWNCombatTracker" where
  "target_attack clk attacker outcome bonus t =
     (let t1 = set_target attacker t;
          t2 = update_encounter_time clk t1;
          t3 = (if is_hit_of outcome then
                  (let u = t2\<lparr>last_attack_was_player := False\<rparr>
                   in if bonus \<noteq> None \<and> (target_ab u = None \<or> the bonus > the (target_ab u))
                      then u\<lparr>target_ab := bonus\<rparr> else u)
                else t2)
      in if is_crit_of outcome then t3\<lparr>last_target_hit_was_crit := True\<rparr>
         else if is_hit_of outcome then t3\<lparr>last_target_hit_was_crit := False\<rparr>
         else t3)"

text \<open>
  The three attack patterns in the order of the source: the concealment percentage and
  the pending flag come with the match.
\<close>

definition find_attack :: "string \<Rightarrow> error + (mstate \<times> int option \<times> bool) option" where
  "find_attack line =
     (case search pat_attack_conceal line of
        Some m \<Rightarrow> bind_r (int_group m ''conceal'') (\<lambda>c. Inr (Some (m, Some c, False)))
      | None \<Rightarrow>
         (case search pat_attack_conceal_pending line of
            Some m \<Rightarrow> bind_r (int_group m ''conceal'') (\<lambda>c. Inr (Some (m, Some c, True)))
          | None \<Rightarrow>
             (case search pat_attack line of
                Some m \<Rightarrow> Inr (Some (m, None, False))
              | None \<Rightarrow> Inr None)))"

definition attack_event ::
  "clock \<Rightarrow> mstate \<Rightarrow> int option \<Rightarrow> bool \<Rightarrow> NWNCombatTracker \<Rightarrow> error + NWNCombatTracker" where
  "attack_event clk m conceal pending t =
     bind_r (str_group m ''attacker'') (\<lambda>a.
     bind_r (str_group m ''target'') (\<lambda>g.
     bind_r (opt_int_group m ''roll'') (\<lambda>roll.
     bind_r (opt_int_group m ''bonus'') (\<lambda>bonus.
     bind_r (opt_int_group m ''total'') (\<lambda>tot.
       (let attacker = strip a;
            target = strip g;
            outcome = lower (case group_of m ''outcome'' of None \<Rightarrow> [] | Some s \<Rightarrow> s)
        in if is_player t attacker \<and> matches_target t target then
             Inr (player_attack clk target conceal pending outcome roll bonus tot t)
           else if matches_target t attacker \<and> is_player t target then
             Inr (target_attack clk attacker outcome bonus t)
           else Inr t))))))"

text \<open>The attack part of \<open>parse_line\<close>; the flag says whether an attack pattern matched.\<close>

definition attack_stage ::
  "clock \<Rightarrow> string \<Rightarrow> NWNCombatTracker \<Rightarrow> error + (bool \<times> NWNCombatTracker)" where
  "attack_stage clk line t =
     bind_r (find_attack line) (\<lambda>found.
       case found of
         None \<Rightarrow> Inr (False, t)
       | Some (m, conceal, pending) \<Rightarrow>
           bind_r (attack_event clk m conceal pending t) (\<lambda>t'. Inr (True, t')))"

text \<open>\<open>if not match:\<close> the concealment-only miss.\<close>

definition conceal_miss_stage ::
  "clock \<Rightarrow> string \<Rightarrow> NWNCombatTracker \<Rightarrow> error + NWNCombatTracker" where
  "conceal_miss_stage clk line t =
     (case search pat_conceal_miss line of
        None \<Rightarrow> Inr t
      | Some m \<Rightarrow>
          bind_r (str_group m ''attacker'') (\<lambda>a.
          bind_r (str_group m ''target'') (\<lambda>g.
          bind_r (int_group m ''conceal'') (\<lambda>conceal.
            (let attacker = strip a; target = strip g
             in if is_player t attacker \<and> matches_target t target then
                  (let t1 = set_target target t;
                       t2 = update_encounter_time clk t1
                   in Inr (t2\<lparr>target_conceal_pct := Some conceal,
                               conceals := conceals t2 + 1\<rparr>))
                else Inr t)))))"

subsection \<open>Saving throws\<close>

definition save_key_of :: "string \<Rightarrow> string" where
  "save_key_of save_type =
     (if save_type = ''fort'' \<or> save_type = ''fortitude'' then ''fort''
      else if save_type = ''reflex'' then ''ref''
      else ''will'')"

definition save_stage ::
  "clock \<Rightarrow> string \<Rightarrow> NWNCombatTracker \<Rightarrow> error + NWNCombatTracker" where
  "save_stage clk line t =
     (case search pat_save line of
        None \<Rightarrow> Inr t
      | Some m \<Rightarrow>
          bind_r (str_group m ''target'') (\<lambda>g.
          bind_r (str_group m ''save_type'') (\<lambda>st.
          bind_r (int_group m ''bonus'') (\<lambda>bonus.
            (let target = strip g;
                 save_key = save_key_of (lower st)
             in if matches_target t target then
                  (let t1 = set_target target t;
                       t2 = update_encounter_time clk t1
                   in if target_saves t2 \<noteq> None
                      then Inr (t2\<lparr>target_saves :=
                                   Some (update_save save_key bonus (the (target_saves t2)))\<rparr>)
                      else Inr t2)
                else Inr t)))))"

subsection \<open>Damage lines\<close>

text \<open>
  The loop over \<open>pat_damage_type.finditer(breakdown)\<close> of the damage dealt: the
  components with a positive amount, each with its type name in title case.
\<close>

fun dealt_types :: "mstate list \<Rightarrow> error + (string \<times> int) list" where
  "dealt_types [] = Inr []"
| "dealt_types (m # rest) =
     bind_r (int_group m ''1'') (\<lambda>dmg_amount.
     bind_r (str_group m ''2'') (\<lambda>ty.
     bind_r (dealt_types rest) (\<lambda>more.
       Inr (if dmg_amount > 0 then (title ty, dmg_amount) # more else more))))"

text \<open>The same loop for the damage taken: every component is recorded under its type.\<close>

fun taken_types ::
  "mstate list \<Rightarrow> (string \<rightharpoonup> int list) \<Rightarrow> error + (string \<rightharpoonup> int list)" where
  "taken_types [] d = Inr d"
| "taken_types (m # rest) d =
     bind_r (int_group m ''1'') (\<lambda>dmg_amount.
     bind_r (str_group m ''2'') (\<lambda>ty.
       (let dmg_type = title ty;
            d1 = (if d dmg_type = None then d(dmg_type \<mapsto> []) else d)
        in taken_types rest (d1(dmg_type \<mapsto> the (d1 dmg_type) @ [dmg_amount])))))"

text \<open>\<open>single_type_info\<close>: the one component of the breakdown, if it has exactly one.\<close>

definition single_type_info :: "string option \<Rightarrow> error + (string \<times> int) option" where
  "single_type_info breakdown =
     (if breakdown \<noteq> None \<and> the breakdown \<noteq> [] then
        bind_r (dealt_types (finditer pat_damage_type (the breakdown))) (\<lambda>damage_types.
          Inr (if length damage_types = 1 then Some (hd damage_types) else None))
      else Inr None)"

text \<open>The player damages the opponent.\<close>

definition player_damage ::
  "clock \<Rightarrow> string \<Rightarrow> int \<Rightarrow> (string \<times> int) option \<Rightarrow> NWNCombatTracker \<Rightarrow> NWNCombatTracker" where
  "player_damage clk target amount single t =
     (let t1 = set_target target t;
          t2 = update_encounter_time clk t1
      in case single of
           Some (dtype, damount) \<Rightarrow>
             if last_attack_was_player t2 then
               (let u = t2\<lparr>weapon_buff_damage_total := weapon_buff_damage_total t2 + amount\<rparr>;
                    d = weapon_buff_damage_by_type u;
                    d1 = (if d dtype = None then d(dtype \<mapsto> 0) else d)
                in u\<lparr>weapon_buff_damage_by_type := d1(dtype \<mapsto> the (d1 dtype) + amount)\<rparr>)
             else
               (let u = t2\<lparr>shield_damage_total := shield_damage_total t2 + amount\<rparr>;
                    d = shield_damage_by_type u;
                    d1 = (if d dtype = None then d(dtype \<mapsto> 0) else d)
                in u\<lparr>shield_damage_by_type := d1(dtype \<mapsto> the (d1 dtype) + amount)\<rparr>)
         | None \<Rightarrow>
             (let u = t2\<lparr>damage_dealt := damage_dealt t2 + amount\<rparr>
              in if last_player_hit_was_crit u
                 then u\<lparr>damage_dealt_crits := damage_dealt_crits u @ [amount]\<rparr>
                 else u\<lparr>damage_dealt_normal := damage_dealt_normal u @ [amount]\<rparr>))"

text \<open>The opponent damages the player.\<close>

definition target_damage ::
  "clock \<Rightarrow> string \<Rightarrow> int \<Rightarrow> string option \<Rightarrow> NWNCombatTracker \<Rightarrow> error + NWNCombatTracker" where
  "target_damage clk attacker amount breakdown t =
     (let t1 = set_target attacker t;
          t2 = update_encounter_time clk t1;
          t3 = t2\<lparr>damage_taken := damage_taken t2 @ [amount]\<rparr>
      in if breakdown \<noteq> None \<and> the breakdown \<noteq> [] then
           bind_r (taken_types (finditer pat_damage_type (the breakdown))
                     (damage_taken_by_type t3)) (\<lambda>d.
             Inr (t3\<lparr>damage_taken_by_type := d\<rparr>))
         else Inr t3)"

definition damage_stage ::
  "clock \<Rightarrow> string \<Rightarrow> NWNCombatTracker \<Rightarrow> error + NWNCombatTracker" where
  "damage_stage clk line t =
     (case search pat_damage line of
        None \<Rightarrow> Inr t
      | Some m \<Rightarrow>
          bind_r (str_group m ''attacker'') (\<lambda>a.
          bind_r (str_group m ''target'') (\<lambda>g.
          bind_r (int_group m ''amount'') (\<lambda>amount.
            (let attacker = strip a;
                 target = strip g;
                 breakdown = group_of m ''breakdown''
             in if is_player t attacker \<and> matches_target t target then
                  bind_r (single_type_info breakdown) (\<lambda>single.
                    Inr (player_damage clk target amount single t))
                else if matches_target t attacker \<and> is_player t target then
                  target_damage clk attacker amount breakdown t
                else Inr t)))))"

subsection \<open>Potions, the undead self-heal and kills\<close>

definition potion_stage ::
  "clock \<Rightarrow> string \<Rightarrow> NWNCombatTracker \<Rightarrow> error + NWNCombatTracker" where
  "potion_stage clk line t =
     (case search pat_potion line of
        None \<Rightarrow> Inr t
      | Some m \<Rightarrow>
          bind_r (str_group m ''user'') (\<lambda>u.
            (let user = strip u
             in if is_player t user then Inr (t\<lparr>player_pots := player_pots t + 1\<rparr>)
                else if matches_target t user then
                  (let t1 = set_target user t;
                       t2 = update_encounter_time clk t1
                   in Inr (t2\<lparr>target_pots := target_pots t2 + 1\<rparr>))
                else Inr t)))"

definition undead_heal_stage ::
  "clock \<Rightarrow> string \<Rightarrow> NWNCombatTracker \<Rightarrow> error + NWNCombatTracker" where
  "undead_heal_stage clk line t =
     (case search pat_undead_heal line of
        None \<Rightarrow> Inr t
      | Some m \<Rightarrow>
          bind_r (str_group m ''caster'') (\<lambda>c.
            (let caster = strip c
             in if matches_target t caster then
                  (let t1 = set_target caster t;
                       t2 = update_encounter_time clk t1
                   in Inr (t2\<lparr>target_pots := target_pots t2 + 1\<rparr>))
                else Inr t)))"

definition kill_stage ::
  "clock \<Rightarrow> string \<Rightarrow> NWNCombatTracker \<Rightarrow> error + NWNCombatTracker" where
  "kill_stage clk line t =
     (case search pat_kill line of
        None \<Rightarrow> Inr t
      | Some m \<Rightarrow>
          bind_r (str_group m ''killer'') (\<lambda>k.
          bind_r (str_group m ''target'') (\<lambda>g.
            (let killer = strip k;
                 target = rstrip_chars ''.!,'' (strip g)
             in if is_player t killer \<and> matches_target t target then
                  Inr (t\<lparr>target_dead := True,
                          kill_time := Some (clk (clock_reads t)),
                          clock_reads := Suc (clock_reads t)\<rparr>)
                else Inr t))))"

subsection \<open>The operations of the tracker\<close>




section \<open>Notions used in the statements\<close>

subsection \<open>Example inputs\<close>



subsection \<open>Sequences of resolved attacks\<close>







subsection \<open>Histories of the rolling attack bonus\<close>

text \<open>
  A call of \<open>update\<close> or \<open>refresh\<close> with the readings of the clock that it makes; a
  history is a list of calls, the earliest first. The observations of a history are the
  pairs that its updates append, and \<open>in_window w t\<close> keeps the observations newer than
  \<open>t\<close> minus \<open>w\<close> seconds.
\<close>

datatype ab_call = Update datetime datetime int | Refresh datetime

fun call :: "ab_call \<Rightarrow> AttackBonus \<Rightarrow> AttackBonus" where
  "call (Update now now_prune bonus) ab = update now now_prune bonus ab"
| "call (Refresh now) ab = refresh now ab"

definition calls :: "ab_call list \<Rightarrow> AttackBonus \<Rightarrow> AttackBonus" where
  "calls cs ab = foldl (\<lambda>a c. call c a) ab cs"

fun readings :: "ab_call \<Rightarrow> datetime list" where
  "readings (Update now now_prune bonus) = [now, now_prune]"
| "readings (Refresh now) = [now]"

fun observation :: "ab_call \<Rightarrow> (datetime \<times> int) list" where
  "observation (Update now now_prune bonus) = [(now, bonus)]"
| "observation (Refresh now) = []"

definition observations :: "ab_call list \<Rightarrow> (datetime \<times> int) list" where
  "observations cs = concat (map observation cs)"

definition in_window :: "int \<Rightarrow> datetime \<Rightarrow> (datetime \<times> int) list \<Rightarrow> (datetime \<times> int) list" where
  "in_window w t obs = filter (\<lambda>(ts, b). ts > t - w * 1000000) obs"

subsection \<open>Groups of a match\<close>

text \<open>
  Two notions for reasoning about the groups that a match binds: \<open>binds r n\<close> holds when
  every match of \<open>r\<close> binds the group \<open>n\<close>, and \<open>good P r\<close> when the text of every group
  \<open>n\<close> that a match of \<open>r\<close> binds satisfies \<open>P n\<close>. The numeric groups of the patterns hold
  numerals: \<open>val_ok\<close> says which groups hold digits and that \<open>bonus\<close> may carry a minus
  sign.
\<close>

fun binds :: "re \<Rightarrow> string \<Rightarrow> bool" where
  "binds (Seq a b) n = (binds a n \<or> binds b n)"
| "binds (Alt a b) n = (binds a n \<and> binds b n)"
| "binds (Grp k a) n = (k = n \<or> binds a n)"
| "binds (Lit c) n = False"
| "binds (Rep greedy k f) n = False"
| "binds (Opt a) n = False"
| "binds Bol n = False"
| "binds Eol n = False"
| "binds Eps n = False"

fun good :: "(string \<Rightarrow> string \<Rightarrow> bool) \<Rightarrow> re \<Rightarrow> bool" where
  "good P (Seq a b) = (good P a \<and> good P b)"
| "good P (Alt a b) = (good P a \<and> good P b)"
| "good P (Opt a) = good P a"
| good_Grp: "good P (Grp n a) =
     (good P a \<and>
      (\<forall>p s g p' s' g'. (p', s', g') \<in> set (ms a (p, s, g)) \<longrightarrow> P n (take (p' - p) s)))"
| "good P (Lit c) = True"
| "good P (Rep greedy k f) = True"
| "good P Bol = True"
| "good P Eol = True"
| "good P Eps = True"

definition numeral_str :: "string \<Rightarrow> bool" where
  "numeral_str v \<longleftrightarrow> v \<noteq> [] \<and> list_all isdigit v"

definition val_ok :: "string \<Rightarrow> string \<Rightarrow> bool" where
  "val_ok n v \<longleftrightarrow>
     (n \<in> set [''conceal'', ''roll'', ''total'', ''amount'', ''dc'', ''1'']
        \<longrightarrow> numeral_str v) \<and>
     (n = ''bonus'' \<longrightarrow> numeral_str v \<or> (\<exists>ds. v = CHR ''-'' # ds \<and> numeral_str ds))"



subsection \<open>Words that a match needs\<close>


definition needs :: "re \<Rightarrow> string list \<Rightarrow> bool" where
  "needs r ws \<longleftrightarrow>
     (\<forall>p s g. ms r (p, s, g) \<noteq> [] \<longrightarrow> (\<exists>w \<in> set ws. contains (lower s) w))"

subsection \<open>Equations for evaluation\<close>

text \<open>
  The character classes and the case mapping on the bits of a character, and the
  repetitions of a class by one pass over the text: equal to the definitions above, and
  used in their place when a match on a concrete line is computed.
\<close>

fun reps :: "(char \<Rightarrow> bool) \<Rightarrow> mstate \<Rightarrow> mstate list" where
  "reps f (p, [], g) = [(p, [], g)]"
| "reps f (p, x # xs, g) = (p, x # xs, g) # (if f x then reps f (Suc p, xs, g) else [])"

lemma isspace_code [code]:
  "isspace (Char b0 b1 b2 b3 b4 b5 b6 b7) \<longleftrightarrow>
     \<not> b6 \<and>
     (if b7 then \<not> b4 \<and> \<not> b3 \<and> \<not> b1 \<and> (b0 \<longleftrightarrow> b2) \<and> (b5 \<longleftrightarrow> \<not> b0)
      else if b5 then \<not> b0 \<and> \<not> b1 \<and> \<not> b2 \<and> \<not> b3 \<and> \<not> b4
      else if b4 then b3 \<and> b2
      else b3 \<and> \<not> (b2 \<and> b1) \<and> (b2 \<or> b1 \<or> b0))"
  by (cases b0; cases b1; cases b2; cases b3; cases b4; cases b5; cases b6; cases b7;
      simp add: isspace_def)

lemma isdigit_code [code]:
  "isdigit (Char b0 b1 b2 b3 b4 b5 b6 b7) \<longleftrightarrow>
     \<not> b7 \<and> \<not> b6 \<and> b5 \<and> b4 \<and> \<not> (b3 \<and> (b2 \<or> b1))"
  by (cases b0; cases b1; cases b2; cases b3; cases b4; cases b5; cases b6; cases b7;
      simp add: isdigit_def)

lemma isalpha_ascii_code [code]:
  "isalpha_ascii (Char b0 b1 b2 b3 b4 b5 b6 b7) \<longleftrightarrow>
     \<not> b7 \<and> b6 \<and> (b0 \<or> b1 \<or> b2 \<or> b3 \<or> b4) \<and> \<not> (b4 \<and> b3 \<and> (b2 \<or> (b1 \<and> b0)))"
  by (cases b0; cases b1; cases b2; cases b3; cases b4; cases b5; cases b6; cases b7;
      simp add: isalpha_ascii_def)

lemma lower_char_code [code]:
  "lower_char (Char b0 b1 b2 b3 b4 b5 b6 b7) =
     (if b6 \<and> \<not> b5 \<and>
         (if b7 then \<not> (b0 \<and> b1 \<and> b2 \<and> b4)
          else (b0 \<or> b1 \<or> b2 \<or> b3 \<or> b4) \<and> \<not> (b4 \<and> b3 \<and> (b2 \<or> (b1 \<and> b0))))
      then Char b0 b1 b2 b3 b4 True b6 b7
      else Char b0 b1 b2 b3 b4 b5 b6 b7)"
  by (cases b0; cases b1; cases b2; cases b3; cases b4; cases b5; cases b6; cases b7;
      simp add: lower_char_def char_of_def bit_Suc_0_iff)

lemma reps_eq:
  "reps f (p, s, g) = map (\<lambda>k. (p + k, drop k s, g)) [0 ..< Suc (length (takeWhile f s))]"
proof (induction s arbitrary: p)
  case Nil
  then show ?case by simp
next
  case (Cons x xs)
  show ?case
  proof (cases "f x")
    case False
    then show ?thesis by simp
  next
    case True
    have "[0 ..< Suc (Suc (length (takeWhile f xs)))] =
        0 # [Suc 0 ..< Suc (Suc (length (takeWhile f xs)))]"
      by (rule upt_conv_Cons) simp
    also have "[Suc 0 ..< Suc (Suc (length (takeWhile f xs)))] =
        map Suc [0 ..< Suc (length (takeWhile f xs))]"
      by (rule map_Suc_upt [symmetric])
    finally show ?thesis using True Cons [of "Suc p"] by (simp add: o_def del: upt_Suc)
  qed
qed

lemma ms_Rep_code:
  "ms (Rep greedy n f) st =
     (if greedy then rev (drop n (reps f st)) else drop n (reps f st))"
proof -
  obtain p s g where st: "st = (p, s, g)" by (cases st) auto
  have "drop n (reps f (p, s, g)) =
      map (\<lambda>k. (p + k, drop k s, g)) [n ..< Suc (length (takeWhile f s))]"
    unfolding reps_eq by (simp only: drop_map drop_upt add_0)
  then show ?thesis unfolding st by (simp add: Let_def rev_map del: upt_Suc)
qed

lemmas ms_code [code] = ms.simps(1) ms_Rep_code ms.simps(3-9)

subsection \<open>What the parts of \<open>parse_line\<close> leave alone\<close>

text \<open>
  \<open>bound t\<close>: in lock mode an opponent is bound (in filter mode the filter alone decides
  who the opponent is). \<open>same_identity t t'\<close>: the configuration is the same in both
  states, a bound name has stayed, and the clock has not been set back. The projections
  below collect the fields of one concern.
\<close>

definition bound :: "NWNCombatTracker \<Rightarrow> bool" where
  "bound t \<longleftrightarrow> (auto_track t \<longrightarrow> target_name t \<noteq> [])"

definition same_identity :: "NWNCombatTracker \<Rightarrow> NWNCombatTracker \<Rightarrow> bool" where
  "same_identity t t' \<longleftrightarrow>
     player_name t' = player_name t \<and> target_filter t' = target_filter t \<and>
     exact_match t' = exact_match t \<and> auto_track t' = auto_track t \<and>
     (target_name t \<noteq> [] \<longrightarrow> target_name t' = target_name t) \<and>
     clock_reads t \<le> clock_reads t'"

definition combat_of ::
  "NWNCombatTracker \<Rightarrow> int \<times> int \<times> int \<times> AttackBonus \<times> bool \<times> bool" where
  "combat_of t = (hits t, misses t, crits t, attack_bonus t, last_attack_was_player t,
     last_player_hit_was_crit t)"

definition ledgers_of ::
  "NWNCombatTracker \<Rightarrow>
     int \<times> int list \<times> int list \<times> (string \<rightharpoonup> int) \<times> int \<times> (string \<rightharpoonup> int) \<times> int" where
  "ledgers_of t = (damage_dealt t, damage_dealt_crits t, damage_dealt_normal t,
     shield_damage_by_type t, shield_damage_total t, weapon_buff_damage_by_type t,
     weapon_buff_damage_total t)"

definition death_of :: "NWNCombatTracker \<Rightarrow> bool \<times> datetime option" where
  "death_of t = (target_dead t, kill_time t)"

definition timing_of :: "NWNCombatTracker \<Rightarrow> datetime option \<times> datetime option" where
  "timing_of t = (encounter_start t, encounter_last t)"

subsection \<open>Kill lines\<close>




subsection \<open>Lines that touch the encounter timing\<close>

text \<open>
  The conditions under which the parts of \<open>parse_line\<close> call \<open>_update_encounter_time\<close>,
  as tests of a state and a line: an attack in either direction, a concealment-only miss of
  the player (tried only when no attack pattern matched), a save of the opponent, damage in
  either direction, a potion of the opponent, a self-heal of the opponent. \<open>touches\<close> is
  their disjunction. \<open>touched clk t t'\<close>: from \<open>t\<close> to \<open>t'\<close> the clock was read,
  \<open>encounter_last\<close> is one of these readings, and \<open>encounter_start\<close> is one of them if
  it was not set and is unchanged if it was. \<open>kept t t'\<close>: both timestamps are unchanged.
\<close>

definition attack_fires :: "NWNCombatTracker \<Rightarrow> string \<Rightarrow> bool" where
  "attack_fires t line =
     (case find_attack line of
        Inr (Some (m, c, p)) \<Rightarrow>
          (case (group_of m ''attacker'', group_of m ''target'') of
             (Some a, Some g) \<Rightarrow>
               (is_player t (strip a) \<and> matches_target t (strip g)) \<or>
               (matches_target t (strip a) \<and> is_player t (strip g))
           | _ \<Rightarrow> False)
      | _ \<Rightarrow> False)"

definition conceal_fires :: "NWNCombatTracker \<Rightarrow> string \<Rightarrow> bool" where
  "conceal_fires t line =
     (find_attack line = Inr None \<and>
      (case search pat_conceal_miss line of
         None \<Rightarrow> False
       | Some m \<Rightarrow>
          (case (group_of m ''attacker'', group_of m ''target'') of
             (Some a, Some g) \<Rightarrow> is_player t (strip a) \<and> matches_target t (strip g)
           | _ \<Rightarrow> False)))"

definition save_fires :: "NWNCombatTracker \<Rightarrow> string \<Rightarrow> bool" where
  "save_fires t line =
     (case search pat_save line of
        None \<Rightarrow> False
      | Some m \<Rightarrow>
          (case group_of m ''target'' of
             Some g \<Rightarrow> matches_target t (strip g)
           | None \<Rightarrow> False))"

definition damage_fires :: "NWNCombatTracker \<Rightarrow> string \<Rightarrow> bool" where
  "damage_fires t line =
     (case search pat_damage line of
        None \<Rightarrow> False
      | Some m \<Rightarrow>
          (case (group_of m ''attacker'', group_of m ''target'') of
             (Some a, Some g) \<Rightarrow>
               (is_player t (strip a) \<and> matches_target t (strip g)) \<or>
               (matches_target t (strip a) \<and> is_player t (strip g))
           | _ \<Rightarrow> False))"

definition potion_fires :: "NWNCombatTracker \<Rightarrow> string \<Rightarrow> bool" where
  "potion_fires t line =
     (case search pat_potion line of
        None \<Rightarrow> False
      | Some m \<Rightarrow>
          (case group_of m ''user'' of
             Some u \<Rightarrow> \<not> is_player t (strip u) \<and> matches_target t (strip u)
           | None \<Rightarrow> False))"

definition heal_fires :: "NWNCombatTracker \<Rightarrow> string \<Rightarrow> bool" where
  "heal_fires t line =
     (case search pat_undead_heal line of
        None \<Rightarrow> False
      | Some m \<Rightarrow>
          (case group_of m ''caster'' of
             Some c \<Rightarrow> matches_target t (strip c)
           | None \<Rightarrow> False))"

definition touches :: "NWNCombatTracker \<Rightarrow> string \<Rightarrow> bool" where
  "touches t line \<longleftrightarrow>
     attack_fires t line \<or> conceal_fires t line \<or> save_fires t line \<or>
     damage_fires t line \<or> potion_fires t line \<or> heal_fires t line"

definition touched :: "clock \<Rightarrow> NWNCombatTracker \<Rightarrow> NWNCombatTracker \<Rightarrow> bool" where
  "touched clk t t' \<longleftrightarrow>
     (\<exists>k. clock_reads t \<le> k \<and> k < clock_reads t' \<and> encounter_last t' = Some (clk k)) \<and>
     (case encounter_start t of
        None \<Rightarrow> (\<exists>j. clock_reads t \<le> j \<and> j < clock_reads t' \<and> encounter_start t' = Some (clk j))
      | Some s \<Rightarrow> encounter_start t' = Some s)"

definition kept :: "NWNCombatTracker \<Rightarrow> NWNCombatTracker \<Rightarrow> bool" where
  "kept t t' \<longleftrightarrow> timing_of t' = timing_of t \<and> clock_reads t \<le> clock_reads t'"

section \<open>The armour-class estimate\<close>

text \<open>
  C4. The estimate is a function of the two bounds alone, by the cases of the source in
  their order: both bounds known and \<open>max_miss + 1 = min_hit\<close> gives the numeral of
  \<open>min_hit\<close>; both known with a gap (\<open>max_miss < min_hit\<close>, the case before apart) gives
  the range \<open>max_miss + 1\<close>-\<open>min_hit\<close>; both known and \<open>max_miss \<ge> min_hit\<close> gives
  \<open>~min_hit\<close>; only \<open>min_hit\<close> known gives U+2264 and \<open>min_hit\<close>; only \<open>max_miss\<close>
  known gives \<open>>max_miss\<close>; neither known gives \<open>?\<close>.
\<close>

theorem get_ac_estimate_cases:
  "(min_hit ac = Some h \<and> max_miss ac = Some m \<and> m + 1 = h \<longrightarrow>
      get_ac_estimate ac = code_points (str h)) \<and>
   (min_hit ac = Some h \<and> max_miss ac = Some m \<and> m + 1 \<noteq> h \<and> m < h \<longrightarrow>
      get_ac_estimate ac = code_points (str (m + 1) @ ''-'' @ str h)) \<and>
   (min_hit ac = Some h \<and> max_miss ac = Some m \<and> m \<ge> h \<longrightarrow>
      get_ac_estimate ac = code_points (''~'' @ str h)) \<and>
   (min_hit ac = Some h \<and> max_miss ac = None \<longrightarrow>
      get_ac_estimate ac = 0x2264 # code_points (str h)) \<and>
   (min_hit ac = None \<and> max_miss ac = Some m \<longrightarrow>
      get_ac_estimate ac = code_points (''>'' @ str m)) \<and>
   (min_hit ac = None \<and> max_miss ac = None \<longrightarrow>
      get_ac_estimate ac = code_points ''?'')"
  by (simp add: get_ac_estimate_def)

theorem get_ac_estimate_cases_witness:
  "get_ac_estimate \<lparr>ac_name = ''Korgan'', min_hit = Some 35, max_miss = Some 34\<rparr> = [51, 53] \<and>
   get_ac_estimate \<lparr>ac_name = ''Korgan'', min_hit = Some 35, max_miss = Some 30\<rparr> = [51, 49, 45, 51, 53] \<and>
   get_ac_estimate \<lparr>ac_name = ''Korgan'', min_hit = Some 35, max_miss = Some 40\<rparr> = [126, 51, 53] \<and>
   get_ac_estimate \<lparr>ac_name = ''Korgan'', min_hit = Some 35, max_miss = None\<rparr> = [8804, 51, 53] \<and>
   get_ac_estimate \<lparr>ac_name = ''Korgan'', min_hit = None, max_miss = Some 30\<rparr> = [62, 51, 48] \<and>
   get_ac_estimate \<lparr>ac_name = ''Korgan'', min_hit = None, max_miss = None\<rparr> = [63]"
proof -
  have 1: "get_ac_estimate \<lparr>ac_name = ''Korgan'', min_hit = Some 35, max_miss = Some 34\<rparr>
      = code_points (str 35)"
    using get_ac_estimate_cases [of "\<lparr>ac_name = ''Korgan'', min_hit = Some 35, max_miss = Some 34\<rparr>" 35 34]
    by simp
  have 2: "get_ac_estimate \<lparr>ac_name = ''Korgan'', min_hit = Some 35, max_miss = Some 30\<rparr>
      = code_points (str (30 + 1) @ ''-'' @ str 35)"
    using get_ac_estimate_cases [of "\<lparr>ac_name = ''Korgan'', min_hit = Some 35, max_miss = Some 30\<rparr>" 35 30]
    by simp
  have 3: "get_ac_estimate \<lparr>ac_name = ''Korgan'', min_hit = Some 35, max_miss = Some 40\<rparr>
      = code_points (''~'' @ str 35)"
    using get_ac_estimate_cases [of "\<lparr>ac_name = ''Korgan'', min_hit = Some 35, max_miss = Some 40\<rparr>" 35 40]
    by simp
  have 4: "get_ac_estimate \<lparr>ac_name = ''Korgan'', min_hit = Some 35, max_miss = None\<rparr>
      = 0x2264 # code_points (str 35)"
    using get_ac_estimate_cases [of "\<lparr>ac_name = ''Korgan'', min_hit = Some 35, max_miss = None\<rparr>" 35 0]
    by simp
  have 5: "get_ac_estimate \<lparr>ac_name = ''Korgan'', min_hit = None, max_miss = Some 30\<rparr>
      = code_points (''>'' @ str 30)"
    using get_ac_estimate_cases [of "\<lparr>ac_name = ''Korgan'', min_hit = None, max_miss = Some 30\<rparr>" 0 30]
    by simp
  have 6: "get_ac_estimate \<lparr>ac_name = ''Korgan'', min_hit = None, max_miss = None\<rparr>
      = code_points ''?''"
    using get_ac_estimate_cases [of "\<lparr>ac_name = ''Korgan'', min_hit = None, max_miss = None\<rparr>" 0 0]
    by simp
  have s35: "code_points (str 35) = [51, 53]" by code_simp
  have s3135: "code_points (str (30 + 1) @ ''-'' @ str 35) = [51, 49, 45, 51, 53]" by code_simp
  have a35: "code_points (''~'' @ str 35) = [126, 51, 53]" by code_simp
  have g30: "code_points (''>'' @ str 30) = [62, 51, 48]" by code_simp
  have q: "code_points ''?'' = [63]" by code_simp
  show ?thesis
    unfolding 1 2 3 4 5 6 s35 s3135 a35 g30 q by simp
qed

section \<open>The armour-class bounds\<close>


















section \<open>The rolling attack bonus\<close>

lemma window_call [simp]: "window_seconds (call c ab) = window_seconds ab"
  by (cases c) (simp_all add: update_def refresh_def prune_old_def Let_def)

lemma window_calls [simp]: "window_seconds (calls cs ab) = window_seconds ab"
  unfolding calls_def by (induction cs arbitrary: ab) simp_all

lemma calls_snoc: "calls (cs @ [c]) ab = call c (calls cs ab)"
  by (simp add: calls_def)

lemma in_window_twice:
  "t1 \<le> t2 \<Longrightarrow> in_window w t2 (in_window w t1 obs) = in_window w t2 obs"
  unfolding in_window_def by (induction obs) auto

lemma in_window_append: "in_window w t (xs @ ys) = in_window w t xs @ in_window w t ys"
  by (simp add: in_window_def)

lemma recent_call:
  "recent_attacks (call c ab) =
     in_window (window_seconds ab) (last (readings c)) (recent_attacks ab @ observation c)"
  by (cases c) (simp_all add: update_def refresh_def prune_old_def Let_def in_window_def)

lemma sorted_readings_snoc:
  assumes "sorted (concat (map readings (cs @ [c])))" "cs \<noteq> []"
  shows "last (readings (last cs)) \<le> hd (readings c)" "sorted (concat (map readings cs))"
proof -
  obtain cs' d where cs: "cs = cs' @ [d]" using assms(2) by (cases cs rule: rev_cases) auto
  have "readings x \<noteq> []" for x by (cases x) simp_all
  then have "readings d \<noteq> []" "readings c \<noteq> []" by blast+
  then have "last (readings d) \<in> set (readings d)" "hd (readings c) \<in> set (readings c)" by simp_all
  then show "last (readings (last cs)) \<le> hd (readings c)"
    using assms(1) unfolding cs by (auto simp: sorted_append)
  show "sorted (concat (map readings cs))" using assms(1) by (simp add: sorted_append)
qed

lemma sorted_own: "sorted (readings c) \<Longrightarrow> hd (readings c) \<le> last (readings c)"
  by (cases c) simp_all

lemma obs_before:
  "sorted (concat (map readings (cs @ [c]))) \<Longrightarrow> (ts, b) \<in> set (observation c) \<Longrightarrow> ts = hd (readings c)"
  by (cases c) auto

lemma recent_calls:
  assumes "recent_attacks ab0 = []" "sorted (concat (map readings cs))" "cs \<noteq> []"
  shows "recent_attacks (calls cs ab0) =
     in_window (window_seconds ab0) (last (readings (last cs))) (observations cs)"
  using assms(2,3)
proof (induction cs rule: rev_induct)
  case Nil
  then show ?case by simp
next
  case (snoc c cs)
  have own: "sorted (readings c)" using snoc.prems(1) by (simp add: sorted_append)
  show ?case
  proof (cases "cs = []")
    case True
    then show ?thesis
      using assms(1) by (simp add: calls_def recent_call observations_def)
  next
    case False
    from sorted_readings_snoc [OF snoc.prems(1) False]
    have le: "last (readings (last cs)) \<le> hd (readings c)"
      and srt: "sorted (concat (map readings cs))" by simp_all
    have le': "last (readings (last cs)) \<le> last (readings c)"
      using le sorted_own [OF own] by linarith
    have IH: "recent_attacks (calls cs ab0) =
      in_window (window_seconds ab0) (last (readings (last cs))) (observations cs)"
      using snoc.IH [OF srt False] .
    have "recent_attacks (calls (cs @ [c]) ab0) =
       in_window (window_seconds ab0) (last (readings c))
         (in_window (window_seconds ab0) (last (readings (last cs))) (observations cs)
          @ observation c)"
      by (simp add: calls_snoc recent_call IH)
    also have "\<dots> = in_window (window_seconds ab0) (last (readings c)) (observations cs @ observation c)"
      by (simp add: in_window_append in_window_twice [OF le'])
    finally show ?thesis by (simp add: observations_def)
  qed
qed

lemma max_call:
  "max_observed (call c ab) =
     (if recent_attacks (call c ab) \<noteq> [] then Max (snd ` set (recent_attacks (call c ab)))
      else case c of Update now now_prune bonus \<Rightarrow> bonus | Refresh now \<Rightarrow> max_observed ab)"
  by (cases c) (simp_all add: update_def refresh_def prune_old_def Let_def)

text \<open>
  C1, as the code has it. Let the clock never run backwards over a history of calls on an
  \<open>AttackBonus\<close> that starts with no observation, and let \<open>t\<close> be the last reading of
  the last call. After that call \<open>recent_attacks\<close> holds exactly the observations newer
  than \<open>t\<close> minus the window, in their order. If there is one, \<open>max_observed\<close> is the
  greatest bonus among them. If there is none, \<open>update\<close> has set \<open>max_observed\<close> to the
  new bonus, and \<open>refresh\<close> has left it as it was before the call.
\<close>

theorem max_observed_window:
  assumes "recent_attacks ab0 = []" and "sorted (concat (map readings (cs @ [c])))"
  shows "recent_attacks (calls (cs @ [c]) ab0) =
           in_window (window_seconds ab0) (last (readings c)) (observations (cs @ [c])) \<and>
         (recent_attacks (calls (cs @ [c]) ab0) \<noteq> [] \<longrightarrow>
            max_observed (calls (cs @ [c]) ab0) =
              Max (snd ` set (in_window (window_seconds ab0) (last (readings c))
                                (observations (cs @ [c]))))) \<and>
         (recent_attacks (calls (cs @ [c]) ab0) = [] \<longrightarrow>
            max_observed (calls (cs @ [c]) ab0) =
              (case c of Update now now_prune bonus \<Rightarrow> bonus
               | Refresh now \<Rightarrow> max_observed (calls cs ab0)))"
proof -
  have r: "recent_attacks (calls (cs @ [c]) ab0) =
           in_window (window_seconds ab0) (last (readings c)) (observations (cs @ [c]))"
    using recent_calls [OF assms, simplified] by simp
  show ?thesis
    using r max_call [of c "calls cs ab0"] by (simp add: calls_snoc)
qed

text \<open>
  The claim as stated fails when the window runs empty: one observation at time 0 and a
  \<open>refresh\<close> a hundred seconds later leave no observation in the window of 30 seconds,
  and \<open>max_observed\<close> is still the bonus of the expired observation, 50 in one history
  and 20 in the other.
\<close>

theorem max_observed_window_counterexample:
  "recent_attacks (refresh 100000000 (update 0 0 50 (new_AttackBonus 0))) = [] \<and>
   max_observed (refresh 100000000 (update 0 0 50 (new_AttackBonus 0))) = 50 \<and>
   recent_attacks (refresh 100000000 (update 0 0 20 (new_AttackBonus 0))) = [] \<and>
   max_observed (refresh 100000000 (update 0 0 20 (new_AttackBonus 0))) = 20"
  by (simp add: refresh_def update_def prune_old_def new_AttackBonus_def Let_def)

theorem max_observed_window_witness:
  "recent_attacks (new_AttackBonus 0) = [] \<and>
   sorted (concat (map readings ([Update 0 1 50, Update 20000000 20000001 30] @ [Refresh 40000000]))) \<and>
   recent_attacks (calls ([Update 0 1 50, Update 20000000 20000001 30] @ [Refresh 40000000]) (new_AttackBonus 0))
      = [(20000000, 30)] \<and>
   max_observed (calls ([Update 0 1 50, Update 20000000 20000001 30] @ [Refresh 40000000]) (new_AttackBonus 0)) = 30 \<and>
   max_observed (calls [Update 0 1 50, Update 20000000 20000001 30] (new_AttackBonus 0)) = 50"
proof -
  have a: "recent_attacks (new_AttackBonus 0) = []" by (simp add: new_AttackBonus_def)
  have b: "sorted (concat (map readings ([Update 0 1 50, Update 20000000 20000001 30] @ [Refresh 40000000])))"
    by simp
  have w: "window_seconds (new_AttackBonus 0) = 30" by (simp add: new_AttackBonus_def)
  have o: "in_window 30 (last (readings (Refresh 40000000)))
      (observations ([Update 0 1 50, Update 20000000 20000001 30] @ [Refresh 40000000])) = [(20000000, 30)]"
    by (simp add: in_window_def observations_def)
  have m: "max_observed (calls [Update 0 1 50, Update 20000000 20000001 30] (new_AttackBonus 0)) = 50"
    by (simp add: calls_def update_def prune_old_def new_AttackBonus_def Let_def)
  show ?thesis
    using max_observed_window [OF a b] a b m unfolding w o by simp
qed

section \<open>The line preprocessor\<close>

lemma strip_idem: "strip (strip s) = strip s"
proof -
  define u where "u = dropWhile isspace s"
  define v where "v = rev (dropWhile isspace (rev u))"
  have sv: "strip s = v" by (simp add: strip_def u_def v_def)
  have uv: "u = v @ rev (takeWhile isspace (rev u))"
  proof -
    have "v @ rev (takeWhile isspace (rev u)) =
        rev (takeWhile isspace (rev u) @ dropWhile isspace (rev u))"
      unfolding v_def by (simp only: rev_append)
    also have "\<dots> = u" by (simp only: takeWhile_dropWhile_id rev_rev_ident)
    finally show ?thesis by simp
  qed
  show ?thesis
  proof (cases "v = []")
    case True
    then show ?thesis by (simp add: sv) (simp add: strip_def)
  next
    case False
    then have "u \<noteq> []" using uv by auto
    then have "\<not> isspace (hd u)" unfolding u_def by (rule hd_dropWhile)
    moreover have "hd u = hd v" using uv False by (metis hd_append2)
    ultimately have 1: "dropWhile isspace v = v" using False by (simp add: dropWhile_eq_self_iff)
    have "rev v = dropWhile isspace (rev u)" by (simp add: v_def)
    moreover have "rev v \<noteq> []" using False by simp
    ultimately have "\<not> isspace (hd (rev v))" by (metis hd_dropWhile)
    then have 2: "dropWhile isspace (rev v) = rev v" by (simp add: dropWhile_eq_self_iff)
    show ?thesis unfolding sv by (simp add: strip_def 1 2)
  qed
qed

lemma ms_rest_suffix:
  "(p', s', g') \<in> set (ms r (p, s, g)) \<Longrightarrow> s' = drop (p' - p) s \<and> p \<le> p' \<and> p' - p \<le> length s"
proof (induction r arbitrary: p s g p' s' g')
  case (Lit c)
  then show ?case by (auto split: list.splits if_splits)
next
  case (Rep greedy n f)
  have "length (takeWhile f s) \<le> length s" by (rule length_takeWhile_le)
  with Rep show ?case by (auto simp: Let_def split: if_splits)
next
  case (Seq a b)
  then obtain p1 s1 g1 where 1: "(p1, s1, g1) \<in> set (ms a (p, s, g))"
    and 2: "(p', s', g') \<in> set (ms b (p1, s1, g1))" by auto
  from Seq.IH(1) [OF 1] Seq.IH(2) [OF 2] show ?case by auto
next
  case (Alt a b)
  then show ?case by auto
next
  case (Opt a)
  then show ?case by auto
next
  case (Grp n a)
  then show ?case by auto
next
  case Bol
  then show ?case by (auto split: if_splits)
next
  case Eol
  then show ?case by (auto split: if_splits)
next
  case Eps
  then show ?case by auto
qed

lemma match_at_rest:
  "match_at r p s = Some (p', s', g') \<Longrightarrow> s' = drop (p' - p) s \<and> p \<le> p' \<and> p' - p \<le> length s"
  using ms_rest_suffix [of p' s' g' r p s "[]"]
  by (auto simp: match_at_def split: list.splits)

text \<open>
  C8, as the code has it. \<open>_strip_prefix\<close> has no failing step. It removes at most one
  prefix \<open>[CHAT WINDOW TEXT] [...]\<close> with the whitespace after it, and only at the very
  start of its input, then trims: an input that does not start with the prefix comes back
  trimmed and otherwise unchanged, an input that does comes back as the trimmed rest.
  The output is always trimmed. Applying \<open>_strip_prefix\<close> to its own output changes
  nothing when that output does not start with a prefix again.
\<close>

theorem strip_prefix_once:
  "(match_at pat_prefix 0 s = None \<longrightarrow> strip_prefix s = strip s) \<and>
   (\<forall>m. match_at pat_prefix 0 s = Some m \<longrightarrow> strip_prefix s = strip (drop (fst m) s)) \<and>
   strip (strip_prefix s) = strip_prefix s \<and>
   (match_at pat_prefix 0 (strip_prefix s) = None \<longrightarrow>
      strip_prefix (strip_prefix s) = strip_prefix s)"
proof -
  have a: "strip_prefix s = strip s" if "match_at pat_prefix 0 s = None"
    using that by (simp add: strip_prefix_def)
  have b: "strip_prefix s = strip (drop (fst m) s)" if "match_at pat_prefix 0 s = Some m" for m
  proof -
    obtain p' s' g' where m: "m = (p', s', g')" by (cases m) auto
    from match_at_rest [OF that [unfolded m]] show ?thesis
      using that by (simp add: strip_prefix_def m)
  qed
  have c: "strip (strip_prefix s) = strip_prefix s"
    by (auto simp: strip_prefix_def strip_idem split: option.splits)
  have d: "strip_prefix (strip_prefix s) = strip_prefix s"
    if "match_at pat_prefix 0 (strip_prefix s) = None"
    using that c by (simp add: strip_prefix_def [of "strip_prefix s"])
  show ?thesis using a b c d by blast
qed

text \<open>
  Idempotence fails on a line with two prefixes: the first application removes one, the
  second the other.
\<close>

theorem strip_prefix_once_counterexample:
  "strip_prefix (strip_prefix ''[CHAT WINDOW TEXT] [a] [CHAT WINDOW TEXT] [b] hi'')
     \<noteq> strip_prefix ''[CHAT WINDOW TEXT] [a] [CHAT WINDOW TEXT] [b] hi''"
proof -
  have 1: "strip_prefix ''[CHAT WINDOW TEXT] [a] [CHAT WINDOW TEXT] [b] hi''
      = ''[CHAT WINDOW TEXT] [b] hi''" by code_simp
  have 2: "strip_prefix ''[CHAT WINDOW TEXT] [b] hi'' = ''hi''" by code_simp
  show ?thesis unfolding 1 2 by simp
qed

theorem strip_prefix_once_witness:
  "match_at pat_prefix 0 ''  Azoni Stout killed Korgan. '' = None \<and>
   strip_prefix ''  Azoni Stout killed Korgan. '' = ''Azoni Stout killed Korgan.'' \<and>
   match_at pat_prefix 0 ''[CHAT WINDOW TEXT] [Wed Jan 1 10:00:00] hi  ''
     = Some (40, ''hi  '', []) \<and>
   strip_prefix ''[CHAT WINDOW TEXT] [Wed Jan 1 10:00:00] hi  '' = ''hi'' \<and>
   match_at pat_prefix 0 (strip_prefix ''[CHAT WINDOW TEXT] [Wed Jan 1 10:00:00] hi  '') = None \<and>
   strip_prefix (strip_prefix ''[CHAT WINDOW TEXT] [Wed Jan 1 10:00:00] hi  '') = ''hi''"
proof -
  have 1: "match_at pat_prefix 0 ''  Azoni Stout killed Korgan. '' = None" by code_simp
  have 2: "strip ''  Azoni Stout killed Korgan. '' = ''Azoni Stout killed Korgan.''" by code_simp
  have 3: "match_at pat_prefix 0 ''[CHAT WINDOW TEXT] [Wed Jan 1 10:00:00] hi  ''
     = Some (40, ''hi  '', [])" by code_simp
  have 4: "strip (drop 40 ''[CHAT WINDOW TEXT] [Wed Jan 1 10:00:00] hi  '') = ''hi''" by code_simp
  have 5: "match_at pat_prefix 0 ''hi'' = None" by code_simp
  have 6: "strip_prefix ''[CHAT WINDOW TEXT] [Wed Jan 1 10:00:00] hi  '' = ''hi''"
    using strip_prefix_once [of "''[CHAT WINDOW TEXT] [Wed Jan 1 10:00:00] hi  ''"] 3 4 by simp
  have 7: "strip_prefix ''  Azoni Stout killed Korgan. '' = ''Azoni Stout killed Korgan.''"
    using strip_prefix_once [of "''  Azoni Stout killed Korgan. ''"] 1 2 by simp
  have 8: "strip_prefix (strip_prefix ''[CHAT WINDOW TEXT] [Wed Jan 1 10:00:00] hi  '') = ''hi''"
    using strip_prefix_once [of "''[CHAT WINDOW TEXT] [Wed Jan 1 10:00:00] hi  ''"] 5 6 by simp
  show ?thesis using 1 3 5 6 7 8 by simp
qed

section \<open>Facts about the matcher\<close>








lemma good_lits [simp]: "good P (lits s)"
  unfolding lits_def by (induction s) simp_all

lemma not_binds_lits [simp]: "\<not> binds (lits s) n"
  unfolding lits_def by (induction s) simp_all

lemma ms_Rep_take:
  assumes "(p', s', g') \<in> set (ms (Rep greedy k f) (p, s, g))"
  shows "k \<le> p' - p \<and> list_all f (take (p' - p) s) \<and> length (take (p' - p) s) = p' - p"
proof -
  from assms obtain i where i: "k \<le> i" "i \<le> length (takeWhile f s)" "p' = p + i"
    by (auto simp: Let_def split: if_splits)
  have "take i s = take i (takeWhile f s)"
    using i(2) by (metis append_eq_conv_conj takeWhile_dropWhile_id take_append min.absorb2 take_all_iff
        append_Nil2 diff_is_0_eq take_0)
  then have "list_all f (take i s)"
    by (metis in_set_takeD list_all_iff set_takeWhileD)
  moreover have "i \<le> length s" using i(2) length_takeWhile_le [of f s] by linarith
  ultimately show ?thesis using i by simp
qed

lemma numeral_val_ok: "numeral_str v \<Longrightarrow> val_ok n v"
  by (simp add: val_ok_def)

lemma good_digits_grp [simp]: "good val_ok (Grp n digits)"
proof -
  have "val_ok n (take (p' - p) s)" if "(p', s', g') \<in> set (ms digits (p, s, g))" for p s g p' s' g'
  proof -
    from ms_Rep_take [OF that [unfolded digits_def]]
    have "1 \<le> p' - p" "list_all isdigit (take (p' - p) s)" "length (take (p' - p) s) = p' - p"
      by simp_all
    then have "numeral_str (take (p' - p) s)" unfolding numeral_str_def by force
    then show ?thesis by (rule numeral_val_ok)
  qed
  then show ?thesis by (simp add: good_Grp digits_def)
qed


lemma of_char_lower:
  "(of_char (lower_char c) :: nat) =
     (if (65 \<le> (of_char c :: nat) \<and> (of_char c :: nat) \<le> 90) \<or>
         (192 \<le> (of_char c :: nat) \<and> (of_char c :: nat) \<le> 222 \<and> (of_char c :: nat) \<noteq> 215)
      then of_char c + 32 else of_char c)"
  by (auto simp: lower_char_def Let_def)

lemma lower_char_minus: "lower_char x = lower_char CHR ''-'' \<Longrightarrow> x = CHR ''-''"
proof -
  assume a: "lower_char x = lower_char CHR ''-''"
  have "lower_char CHR ''-'' = CHR ''-''" by (simp add: lower_char_def)
  with a have "(of_char (lower_char x) :: nat) = 45" by simp
  then have "(of_char x :: nat) = 45" unfolding of_char_lower by (auto split: if_splits)
  then have "(of_char x :: nat) = of_char CHR ''-''" by simp
  then show ?thesis by (simp only: of_char_eq_iff)
qed

lemma good_bonus_grp [simp]: "good val_ok (Grp ''bonus'' (Seq (Opt (Lit CHR ''-'')) digits))"
proof -
  have ok: "val_ok ''bonus'' (take (p' - p) s)"
    if m: "(p', s', g') \<in> set (ms (Seq (Opt (Lit CHR ''-'')) digits) (p, s, g))"
    for p s g p' s' g'
  proof -
    from m obtain p1 s1 g1 where 1: "(p1, s1, g1) \<in> set (ms (Opt (Lit CHR ''-'')) (p, s, g))"
      and 2: "(p', s', g') \<in> set (ms digits (p1, s1, g1))" by auto
    from ms_Rep_take [OF 2 [unfolded digits_def]]
    have d: "1 \<le> p' - p1" "list_all isdigit (take (p' - p1) s1)"
      "length (take (p' - p1) s1) = p' - p1" by simp_all
    then have nd: "numeral_str (take (p' - p1) s1)" unfolding numeral_str_def by force
    from 1 have "(p1, s1, g1) = (p, s, g) \<or> (\<exists>x. s = x # s1 \<and> lower_char x = lower_char CHR ''-'' \<and> p1 = Suc p)"
      by (auto split: list.splits if_splits)
    then show ?thesis
    proof
      assume "(p1, s1, g1) = (p, s, g)"
      with nd show ?thesis by (simp add: val_ok_def)
    next
      assume "\<exists>x. s = x # s1 \<and> lower_char x = lower_char CHR ''-'' \<and> p1 = Suc p"
      then obtain x where x: "s = x # s1" "lower_char x = lower_char CHR ''-''" "p1 = Suc p" by blast
      have "x = CHR ''-''" using x(2) by (rule lower_char_minus)
      moreover have "p' - p = Suc (p' - p1)" using x(3) d(1) by linarith
      then have "take (p' - p) s = x # take (p' - p1) s1"
        using x(1) by simp
      ultimately show ?thesis using nd by (simp add: val_ok_def)
    qed
  qed
  have "good val_ok (Seq (Opt (Lit CHR ''-'')) digits)" by (simp add: digits_def)
  with ok show ?thesis unfolding good_Grp by blast
qed

lemma val_ok_free:
  "n \<notin> set [''conceal'', ''roll'', ''total'', ''amount'', ''dc'', ''1'', ''bonus''] \<Longrightarrow> val_ok n v"
  by (simp add: val_ok_def)

lemma good_free_grp:
  "n \<notin> set [''conceal'', ''roll'', ''total'', ''amount'', ''dc'', ''1'', ''bonus''] \<Longrightarrow>
   good val_ok a \<Longrightarrow> good val_ok (Grp n a)"
  by (simp add: good_Grp val_ok_free del: set_simps)

subsection \<open>The groups of the patterns\<close>

declare good_Grp [simp del]

lemma good_digits [simp]: "good P digits"
  by (simp add: digits_def)

lemma good_lazy_name [simp]:
  "n \<notin> set [''conceal'', ''roll'', ''total'', ''amount'', ''dc'', ''1'', ''bonus''] \<Longrightarrow>
   good val_ok (lazy_name n)"
  unfolding lazy_name_def by (rule good_free_grp) simp_all

lemma good_who_attacks [simp]: "good val_ok who_attacks"
  by (simp add: who_attacks_def cat_def ws0_def ws1_def)

lemma good_outcome_tok [simp]: "good val_ok outcome_tok"
  by (simp add: outcome_tok_def cat_def alts_def good_free_grp)

lemma good_roll_expr [simp]: "good val_ok roll_expr"
  by (simp add: roll_expr_def cat_def ws0_def)

lemma good_concealed_tok [simp]: "good val_ok concealed_tok"
  by (simp add: concealed_tok_def cat_def ws0_def)

lemma good_aoo [simp]: "good val_ok aoo"
  by (simp add: aoo_def cat_def ws0_def)























subsection \<open>Conversions that cannot fail\<close>













section \<open>Every part of \<open>parse_line\<close> returns\<close>

lemma bind_r_Inr [simp]: "bind_r (Inr v) f = f v"
  by (simp add: bind_r_def)

lemma bind_r_Inl [simp]: "bind_r (Inl e) f = Inl e"
  by (simp add: bind_r_def)

lemma bind_r_returns:
  "\<exists>v. x = Inr v \<Longrightarrow> (\<And>v. x = Inr v \<Longrightarrow> \<exists>w. f v = Inr w) \<Longrightarrow> \<exists>w. bind_r x f = Inr w"
  by auto

















section \<open>Searches that must fail\<close>

lemma needsD:
  "needs r ws \<Longrightarrow> ms r (p, s, g) \<noteq> [] \<Longrightarrow> \<exists>w \<in> set ws. contains (lower s) w"
  unfolding needs_def by blast

















lemma needs_Grp:
  assumes "needs a ws"
  shows "needs (Grp n a) ws"
  unfolding needs_def
proof (intro allI impI)
  fix p s g
  assume "ms (Grp n a) (p, s, g) \<noteq> []"
  then have "ms a (p, s, g) \<noteq> []" by auto
  with assms show "\<exists>w \<in> set ws. contains (lower s) w" by (rule needsD)
qed



















section \<open>Totality\<close>



section \<open>Frames of the parts of \<open>parse_line\<close>\<close>

lemma same_identity_refl [simp]: "same_identity t t"
  by (simp add: same_identity_def)







lemma bound_same: "same_identity t t' \<Longrightarrow> bound t \<Longrightarrow> bound t'"
  by (auto simp: same_identity_def bound_def)

lemma same_identity_fields:
  "player_name t' = player_name t \<Longrightarrow> target_filter t' = target_filter t \<Longrightarrow>
   exact_match t' = exact_match t \<Longrightarrow> auto_track t' = auto_track t \<Longrightarrow>
   target_name t' = target_name t \<Longrightarrow> clock_reads t \<le> clock_reads t' \<Longrightarrow> same_identity t t'"
  by (simp add: same_identity_def)

lemma same_identity_resolve_attack [simp]: "same_identity t (resolve_attack outcome roll tot t)"
  by (simp add: same_identity_def resolve_attack_def Let_def)

lemma same_identity_update_attack_bonus [simp]: "same_identity t (update_attack_bonus clk b t)"
  by (simp add: same_identity_def update_attack_bonus_def)












lemma same_identity_kill_stage:
  "kill_stage clk line t = Inr t' \<Longrightarrow> same_identity t t'"
  by (auto simp: kill_stage_def bind_r_def Let_def same_identity_def
      split: sum.splits option.splits if_splits)




lemma death_touch [simp]: "death_of (update_encounter_time clk (set_target n t)) = death_of t"
  by (simp add: death_of_def update_encounter_time_def set_target_def Let_def)

lemma death_resolve_attack [simp]: "death_of (resolve_attack outcome roll tot t) = death_of t"
  by (simp add: death_of_def resolve_attack_def Let_def)

lemma death_update_attack_bonus [simp]: "death_of (update_attack_bonus clk b t) = death_of t"
  by (simp add: death_of_def update_attack_bonus_def)

lemma death_player_attack [simp]:
  "death_of (player_attack clk target conceal pending outcome roll bonus tot t) = death_of t"
proof -
  have "death_of (u\<lparr>target_conceal_pct := c\<rparr>) = death_of u" for u c
    by (simp add: death_of_def)
  then show ?thesis by (simp add: player_attack_def Let_def)
qed

lemma death_target_attack [simp]:
  "death_of (target_attack clk attacker outcome bonus t) = death_of t"
proof -
  have "death_of (target_attack clk attacker outcome bonus t)
      = death_of (update_encounter_time clk (set_target attacker t))"
    by (simp add: target_attack_def Let_def death_of_def)
  then show ?thesis by simp
qed




lemma death_player_damage [simp]:
  "death_of (player_damage clk target amount single t) = death_of t"
proof -
  have "death_of (player_damage clk target amount single t)
      = death_of (update_encounter_time clk (set_target target t))"
    by (simp add: player_damage_def Let_def death_of_def split: option.splits prod.splits)
  then show ?thesis by simp
qed






section \<open>Kill lines\<close>



lemma contains_Nil [simp]: "contains [] w \<longleftrightarrow> w = []"
  by simp








section \<open>Encounter timing\<close>

lemma kept_refl [simp]: "kept t t"
  by (simp add: kept_def)

lemma kept_kept: "kept a b \<Longrightarrow> kept b c \<Longrightarrow> kept a c"
  by (simp add: kept_def)

lemma touched_kept: "touched clk a b \<Longrightarrow> kept b c \<Longrightarrow> touched clk a c"
  unfolding touched_def kept_def timing_of_def
  by (cases "encounter_start a") (auto intro: less_le_trans)

lemma kept_touched: "kept a b \<Longrightarrow> touched clk b c \<Longrightarrow> touched clk a c"
  unfolding touched_def kept_def timing_of_def
  by (cases "encounter_start a") (auto intro: le_trans)

lemma touched_touched:
  assumes "touched clk a b" "touched clk b c"
  shows "touched clk a c"
proof -
  from assms(1) obtain k where k: "clock_reads a \<le> k" "k < clock_reads b" by (auto simp: touched_def)
  from assms(2) obtain k' where k': "clock_reads b \<le> k'" "k' < clock_reads c"
    "encounter_last c = Some (clk k')" by (auto simp: touched_def)
  have last: "\<exists>k. clock_reads a \<le> k \<and> k < clock_reads c \<and> encounter_last c = Some (clk k)"
    using k k' by (intro exI [of _ k']) auto
  show ?thesis
  proof (cases "encounter_start a")
    case None
    with assms(1) obtain j where j: "clock_reads a \<le> j" "j < clock_reads b"
      "encounter_start b = Some (clk j)" by (auto simp: touched_def)
    with assms(2) have "encounter_start c = Some (clk j)" by (simp add: touched_def)
    moreover have "j < clock_reads c" using j(2) k' by linarith
    ultimately show ?thesis using None last j(1) unfolding touched_def by auto
  next
    case (Some s)
    with assms(1) have "encounter_start b = Some s" by (simp add: touched_def)
    with assms(2) have "encounter_start c = Some s" by (simp add: touched_def)
    then show ?thesis using Some last unfolding touched_def by simp
  qed
qed

lemma touched_update_encounter_time:
  "touched clk t (update_encounter_time clk (set_target n t))"
  unfolding touched_def
  by (cases "encounter_start t")
    (auto simp: update_encounter_time_def set_target_def Let_def)

lemma kept_fields:
  "timing_of t' = timing_of t \<Longrightarrow> clock_reads t \<le> clock_reads t' \<Longrightarrow> kept t t'"
  by (simp add: kept_def)

lemma kept_resolve_attack [simp]: "kept t (resolve_attack outcome roll tot t)"
  by (simp add: kept_def timing_of_def resolve_attack_def Let_def)

lemma kept_update_attack_bonus [simp]: "kept t (update_attack_bonus clk b t)"
  by (simp add: kept_def timing_of_def update_attack_bonus_def)

lemma touched_player_attack:
  "touched clk t (player_attack clk target conceal pending outcome roll bonus tot t)"
proof -
  define t2 where "t2 = update_encounter_time clk (set_target target t)"
  define t3 where "t3 = (if conceal \<noteq> None then t2\<lparr>target_conceal_pct := conceal\<rparr> else t2)"
  define t4 where "t4 = (if bonus \<noteq> None then update_attack_bonus clk (the bonus) t3 else t3)"
  have 2: "touched clk t t2" unfolding t2_def by (rule touched_update_encounter_time)
  have 3: "kept t2 t3" unfolding t3_def by (simp add: kept_def timing_of_def)
  have 4: "kept t3 t4" unfolding t4_def by simp
  have 5: "kept t4 (if \<not> pending then resolve_attack outcome roll tot t4 else t4)" by simp
  have "player_attack clk target conceal pending outcome roll bonus tot t
      = (if \<not> pending then resolve_attack outcome roll tot t4 else t4)"
    by (simp add: player_attack_def Let_def t2_def t3_def t4_def)
  then show ?thesis
    using touched_kept [OF touched_kept [OF touched_kept [OF 2 3] 4] 5] by simp
qed

lemma touched_target_attack: "touched clk t (target_attack clk attacker outcome bonus t)"
proof -
  have "kept (update_encounter_time clk (set_target attacker t))
      (target_attack clk attacker outcome bonus t)"
    by (simp add: target_attack_def Let_def kept_def timing_of_def)
  with touched_update_encounter_time show ?thesis by (rule touched_kept)
qed

lemma attack_stage_flag:
  "attack_stage clk line t = Inr (b, t') \<Longrightarrow> b \<longleftrightarrow> find_attack line \<noteq> Inr None"
  by (auto simp: attack_stage_def bind_r_def split: sum.splits option.splits)

lemma attack_stage_timing:
  assumes "attack_stage clk line t = Inr (b, t')"
  shows "if attack_fires t line then touched clk t t' else kept t t'"
proof (cases "find_attack line")
  case (Inl e)
  with assms show ?thesis by (simp add: attack_stage_def)
next
  case (Inr found)
  show ?thesis
  proof (cases found)
    case None
    with Inr assms show ?thesis by (simp add: attack_stage_def attack_fires_def)
  next
    case (Some x)
    obtain m c p where x: "x = (m, c, p)" by (cases x) auto
    from assms Inr Some x have ev: "attack_event clk m c p t = Inr t'"
      by (auto simp: attack_stage_def bind_r_def split: sum.splits)
    then obtain a g where ag: "group_of m ''attacker'' = Some a" "group_of m ''target'' = Some g"
      by (auto simp: attack_event_def str_group_def bind_r_def split: option.splits sum.splits)
    from ev ag show ?thesis
      using touched_player_attack touched_target_attack
      by (auto simp: attack_fires_def Inr Some x attack_event_def str_group_def bind_r_def Let_def
          split: sum.splits if_splits)
  qed
qed

lemma conceal_miss_stage_timing:
  assumes "conceal_miss_stage clk line t = Inr t'"
  shows "if (case search pat_conceal_miss line of
         None \<Rightarrow> False
       | Some m \<Rightarrow>
          (case (group_of m ''attacker'', group_of m ''target'') of
             (Some a, Some g) \<Rightarrow> is_player t (strip a) \<and> matches_target t (strip g)
           | _ \<Rightarrow> False))
     then touched clk t t' else kept t t'"
proof -
  have "touched clk t ((update_encounter_time clk (set_target n t))
      \<lparr>target_conceal_pct := c, conceals := k\<rparr>)" for n c k
    by (rule touched_kept [OF touched_update_encounter_time [of clk t n]])
      (simp add: kept_def timing_of_def)
  then show ?thesis using assms
    by (auto simp: conceal_miss_stage_def str_group_def bind_r_def Let_def
        split: option.splits sum.splits if_splits)
qed

lemma save_stage_timing:
  assumes "save_stage clk line t = Inr t'"
  shows "if save_fires t line then touched clk t t' else kept t t'"
proof -
  have "touched clk t ((update_encounter_time clk (set_target n t))\<lparr>target_saves := s\<rparr>)" for n s
    by (rule touched_kept [OF touched_update_encounter_time [of clk t n]])
      (simp add: kept_def timing_of_def)
  then show ?thesis using assms touched_update_encounter_time
    by (auto simp: save_stage_def save_fires_def str_group_def bind_r_def Let_def
        split: option.splits sum.splits if_splits)
qed

lemma touched_player_damage: "touched clk t (player_damage clk target amount single t)"
proof -
  have "kept (update_encounter_time clk (set_target target t))
      (player_damage clk target amount single t)"
    by (simp add: player_damage_def Let_def kept_def timing_of_def split: option.splits prod.splits)
  with touched_update_encounter_time show ?thesis by (rule touched_kept)
qed

lemma touched_target_damage:
  assumes "target_damage clk attacker amount breakdown t = Inr t'"
  shows "touched clk t t'"
proof -
  from assms have "kept (update_encounter_time clk (set_target attacker t)) t'"
    by (auto simp: target_damage_def Let_def kept_def timing_of_def bind_r_def
        split: if_splits sum.splits)
  with touched_update_encounter_time show ?thesis by (rule touched_kept)
qed

lemma damage_stage_timing:
  assumes "damage_stage clk line t = Inr t'"
  shows "if damage_fires t line then touched clk t t' else kept t t'"
  using assms touched_player_damage touched_target_damage
  by (auto simp: damage_stage_def damage_fires_def str_group_def bind_r_def Let_def
      split: option.splits sum.splits if_splits)

lemma potion_stage_timing:
  assumes "potion_stage clk line t = Inr t'"
  shows "if potion_fires t line then touched clk t t' else kept t t'"
proof -
  have "touched clk t ((update_encounter_time clk (set_target n t))\<lparr>target_pots := k\<rparr>)" for n k
    by (rule touched_kept [OF touched_update_encounter_time [of clk t n]])
      (simp add: kept_def timing_of_def)
  moreover have "kept t (t\<lparr>player_pots := k\<rparr>)" for k by (simp add: kept_def timing_of_def)
  ultimately show ?thesis using assms
    by (auto simp: potion_stage_def potion_fires_def str_group_def bind_r_def Let_def
        split: option.splits sum.splits if_splits)
qed

lemma undead_heal_stage_timing:
  assumes "undead_heal_stage clk line t = Inr t'"
  shows "if heal_fires t line then touched clk t t' else kept t t'"
proof -
  have "touched clk t ((update_encounter_time clk (set_target n t))\<lparr>target_pots := k\<rparr>)" for n k
    by (rule touched_kept [OF touched_update_encounter_time [of clk t n]])
      (simp add: kept_def timing_of_def)
  then show ?thesis using assms
    by (auto simp: undead_heal_stage_def heal_fires_def str_group_def bind_r_def Let_def
        split: option.splits sum.splits if_splits)
qed

lemma kill_stage_timing: "kill_stage clk line t = Inr t' \<Longrightarrow> kept t t'"
  by (auto simp: kill_stage_def bind_r_def Let_def kept_def timing_of_def
      split: option.splits sum.splits if_splits)

end
